theory Spec2Isabelle
  imports Complex_Main "HOL-Library.AList" "HOL-Library.Multiset"
begin

section \<open>JavaScript values\<close>

text \<open>
  A property of a JavaScript object is either missing (reading it gives \<open>undefined\<close>),
  \<open>null\<close>, or holds a value. The values have the types of the wire protocol: node
  identifiers, addresses, phases and statuses are strings, counters are integers (JSON can
  carry a negative one), neighbour lists are arrays of strings. Keys of a report that the
  code never reads are left out of the records below. Numbers are exact: an integer is
  unbounded and a quotient is a real number, where the code computes with doubles. The two
  agree on sums of integers as long as no sum exceeds \<open>2^53\<close>; beyond that the code
  rounds, and it reaches \<open>Infinity\<close> and \<open>NaN\<close>, which these numbers do not have.

  Timestamps are milliseconds since the epoch. Every operation takes the reading of the
  clock as its parameter \<open>now\<close> (one reading for the whole call), and the ISO strings of
  the source are compared as these numbers.
\<close>

datatype 'a field = Absent | Null | Val 'a

text \<open>\<open>{...a, ...b}\<close> for one key: a key that \<open>b\<close> owns wins, also when it holds \<open>null\<close>.\<close>

definition spread_field :: "'a field \<Rightarrow> 'a field \<Rightarrow> 'a field" where
  "spread_field old new = (case new of Absent \<Rightarrow> old | Null \<Rightarrow> Null | Val v \<Rightarrow> Val v)"

text \<open>Truthiness: \<open>undefined\<close>, \<open>null\<close>, the empty string and \<open>0\<close> are falsy; every array is truthy.\<close>

definition truthy_str :: "string field \<Rightarrow> bool" where
  "truthy_str x = (case x of Val s \<Rightarrow> s \<noteq> [] | _ \<Rightarrow> False)"

definition truthy_num :: "int field \<Rightarrow> bool" where
  "truthy_num x = (case x of Val n \<Rightarrow> n \<noteq> 0 | _ \<Rightarrow> False)"

definition truthy_arr :: "'a list field \<Rightarrow> bool" where
  "truthy_arr x = (case x of Val xs \<Rightarrow> True | _ \<Rightarrow> False)"

text \<open>\<open>x || 0\<close>, \<open>x || 'active'\<close>, \<open>x || []\<close>.\<close>

definition or0 :: "int field \<Rightarrow> int" where
  "or0 x = (case x of Val n \<Rightarrow> n | _ \<Rightarrow> 0)"

definition or_str :: "string field \<Rightarrow> string \<Rightarrow> string" where
  "or_str x d = (case x of Val s \<Rightarrow> (if s \<noteq> [] then s else d) | _ \<Rightarrow> d)"

definition or_arr :: "'a list field \<Rightarrow> 'a list" where
  "or_arr x = (case x of Val xs \<Rightarrow> xs | _ \<Rightarrow> [])"

text \<open>\<open>Array.prototype.findIndex\<close>; \<open>None\<close> is the result \<open>-1\<close>.\<close>

fun findIndex :: "('a \<Rightarrow> bool) \<Rightarrow> 'a list \<Rightarrow> nat option" where
  "findIndex P [] = None"
| "findIndex P (x # xs) = (if P x then Some 0 else map_option Suc (findIndex P xs))"

text \<open>\<open>xs.slice(-n)\<close>: the last \<open>n\<close> elements, all of them when there are fewer.\<close>

definition slice_last :: "nat \<Rightarrow> 'a list \<Rightarrow> 'a list" where
  "slice_last n xs = drop (length xs - n) xs"

section \<open>The data of networkMonitor.js\<close>

text \<open>
  The object kept per node in the \<open>nodes\<close> Map. Its \<open>nodeId\<close> property always equals
  the key it is stored under and is carried by the key.
\<close>

record node =
  ip :: "string field"
  port :: "int field"
  status :: "string field"
  neighbors :: "string list field"
  version :: "string field"
  socket :: "nat field"
  lastSeen :: "int field"
  lastUpdated :: "int field"
  bytesSent :: "int field"
  bytesReceived :: "int field"
  node_messagesRelayed :: "int field"
  tokenHolds :: "int field"
  lastTokenHold :: "int field"

definition empty_node :: node where
  "empty_node = \<lparr> ip = Absent, port = Absent, status = Absent, neighbors = Absent,
     version = Absent, socket = Absent, lastSeen = Absent, lastUpdated = Absent,
     bytesSent = Absent, bytesReceived = Absent, node_messagesRelayed = Absent,
     tokenHolds = Absent, lastTokenHold = Absent \<rparr>"

definition spread_node :: "node \<Rightarrow> node \<Rightarrow> node" where
  "spread_node a b = \<lparr> ip = spread_field (ip a) (ip b),
     port = spread_field (port a) (port b),
     status = spread_field (status a) (status b),
     neighbors = spread_field (neighbors a) (neighbors b),
     version = spread_field (version a) (version b),
     socket = spread_field (socket a) (socket b),
     lastSeen = spread_field (lastSeen a) (lastSeen b),
     lastUpdated = spread_field (lastUpdated a) (lastUpdated b),
     bytesSent = spread_field (bytesSent a) (bytesSent b),
     bytesReceived = spread_field (bytesReceived a) (bytesReceived b),
     node_messagesRelayed = spread_field (node_messagesRelayed a) (node_messagesRelayed b),
     tokenHolds = spread_field (tokenHolds a) (tokenHolds b),
     lastTokenHold = spread_field (lastTokenHold a) (lastTokenHold b) \<rparr>"

text \<open>An entry of \<open>topology.nodes\<close>: the keys written by hand, then the spread of the node.\<close>

record topo_node =
  tn_id :: string
  tn_label :: string
  tn_hasToken :: bool
  tn_status :: "string field"
  tn_neighbors :: "string list field"
  tn_info :: node

record edge =
  e_id :: string
  e_from :: string
  e_to :: string
  e_type :: string

record topology =
  topo_nodes :: "topo_node list"
  edges :: "edge list"

record token_status =
  currentHolder :: "string field"
  sequence :: "int field"
  phase :: "string field"
  traversalDepth :: "int field"
  visitedCount :: nat
  lastMovement :: "int field"

text \<open>The keys of a \<open>token_status\<close> report that the code reads.\<close>

record token_data =
  td_nodeId :: "string field"
  td_currentHolder :: "string field"
  td_sequence :: "int field"
  td_phase :: "string field"
  td_traversalDepth :: "int field"

record movement =
  mv_from :: string
  mv_to :: "string field"
  mv_timestamp :: int
  mv_sequence :: "int field"
  mv_phase :: "string field"
  mv_depth :: "int field"

record topology_data =
  tp_nodeId :: "string field"
  tp_neighbors :: "string list field"

record stats_data =
  sd_nodeId :: "string field"
  sd_bytesSent :: "int field"
  sd_bytesReceived :: "int field"
  sd_messagesRelayed :: "int field"

definition empty_stats :: stats_data where
  "empty_stats = \<lparr> sd_nodeId = Absent, sd_bytesSent = Absent, sd_bytesReceived = Absent,
     sd_messagesRelayed = Absent \<rparr>"

definition spread_stats :: "stats_data \<Rightarrow> stats_data \<Rightarrow> stats_data" where
  "spread_stats a b = \<lparr> sd_nodeId = spread_field (sd_nodeId a) (sd_nodeId b),
     sd_bytesSent = spread_field (sd_bytesSent a) (sd_bytesSent b),
     sd_bytesReceived = spread_field (sd_bytesReceived a) (sd_bytesReceived b),
     sd_messagesRelayed = spread_field (sd_messagesRelayed a) (sd_messagesRelayed b) \<rparr>"

record dfs_data =
  dfs_nodeId :: "string field"
  dfs_phase :: "string field"
  dfs_depth :: "int field"
  dfs_visited :: "bool field"
  dfs_parent :: "string field"

record statistics =
  totalNodes :: nat
  activeNodes :: nat
  totalBandwidth :: int
  messagesRelayed :: int
  tokenCirculations :: nat
  averageTokenHoldTime :: real
  networkEfficiency :: real
  dfsCompletionRate :: real

text \<open>
  A JavaScript Map keeps its keys in insertion order and \<open>set\<close> on a present key keeps
  the key's place: an association list under \<open>AList.update\<close> and \<open>AList.delete\<close>.
\<close>

record monitor =
  nodes :: "(string \<times> node) list"
  topology :: topology
  tokenStatus :: token_status
  statistics :: statistics
  dfsState :: "(string \<times> dfs_data \<times> int) list"
  tokenHistory :: "movement list"
  performanceMetrics :: "(string \<times> stats_data \<times> int) list"

definition initial_tokenStatus :: token_status where
  "initial_tokenStatus = \<lparr> currentHolder = Null, sequence = Val 0, phase = Val ''FORWARD'',
     traversalDepth = Val 0, visitedCount = 0, lastMovement = Null \<rparr>"

definition constructor :: monitor where
  "constructor = \<lparr> nodes = [],
     topology = \<lparr> topo_nodes = [], edges = [] \<rparr>,
     tokenStatus = initial_tokenStatus,
     statistics = \<lparr> totalNodes = 0, activeNodes = 0, totalBandwidth = 0, messagesRelayed = 0,
       tokenCirculations = 0, averageTokenHoldTime = 0, networkEfficiency = 0,
       dfsCompletionRate = 0 \<rparr>,
     dfsState = [], tokenHistory = [], performanceMetrics = [] \<rparr>"

section \<open>The operations of networkMonitor.js\<close>

text \<open>The differences of consecutive entries, as the \<open>for\<close> loop of the source collects them.\<close>

fun intervals :: "int list \<Rightarrow> int list" where
  "intervals (a # b # ts) = (b - a) # intervals (b # ts)"
| "intervals ts = []"

definition calculateGlobalStatistics :: "int \<Rightarrow> monitor \<Rightarrow> monitor" where
  "calculateGlobalStatistics now m =
    (let ns = map snd (nodes m);
         active = filter (\<lambda>n. status n = Val ''active'') ns;
         bandwidth = foldl (\<lambda>sum n. sum + or0 (bytesSent n) + or0 (bytesReceived n)) 0 ns;
         relayed = foldl (\<lambda>sum n. sum + or0 (node_messagesRelayed n)) 0 ns;
         tokenHoldTimes = map mv_timestamp
           (filter (\<lambda>h. mv_timestamp h > now - 60000) (tokenHistory m));
         avg = (if length tokenHoldTimes > 1
                then real_of_int (foldl (+) 0 (intervals tokenHoldTimes))
                       / real (length (intervals tokenHoldTimes))
                else averageTokenHoldTime (statistics m));
         totalMessages = int (tokenCirculations (statistics m)) + relayed;
         expectedVisits = length active
     in m\<lparr> statistics := (statistics m)\<lparr>
          totalNodes := length ns,
          activeNodes := length active,
          totalBandwidth := bandwidth,
          messagesRelayed := relayed,
          averageTokenHoldTime := avg,
          networkEfficiency :=
            (if totalMessages > 0
             then (real_of_int relayed / real_of_int totalMessages) * 100 else 0),
          dfsCompletionRate :=
            (if expectedVisits > 0
             then (real (visitedCount (tokenStatus m)) / real expectedVisits) * 100 else 0)
        \<rparr> \<rparr>)"

definition has_node :: "monitor \<Rightarrow> string \<Rightarrow> bool" where
  "has_node m k = (map_of (nodes m) k \<noteq> None)"

definition updateTopologyFromNode :: "string \<Rightarrow> node \<Rightarrow> monitor \<Rightarrow> monitor" where
  "updateTopologyFromNode nodeId nodeInfo m =
    (let existingNodeIndex = findIndex (\<lambda>n. tn_id n = nodeId) (topo_nodes (topology m));
         nodeData = \<lparr> tn_id = nodeId, tn_label = nodeId,
            tn_hasToken = (currentHolder (tokenStatus m) = Val nodeId),
            tn_status = spread_field (Val (or_str (status nodeInfo) ''active'')) (status nodeInfo),
            tn_neighbors = spread_field (Val (or_arr (neighbors nodeInfo))) (neighbors nodeInfo),
            tn_info = nodeInfo \<rparr>;
         tns = (case existingNodeIndex of
                  Some i \<Rightarrow> (topo_nodes (topology m))[i := nodeData]
                | None \<Rightarrow> topo_nodes (topology m) @ [nodeData]);
         es = (if truthy_arr (neighbors nodeInfo)
               then foldl (\<lambda>acc neighborId.
                        if has_node m neighborId
                        then acc @ [\<lparr> e_id = nodeId @ ''-'' @ neighborId, e_from = nodeId,
                                      e_to = neighborId, e_type = ''neighbor'' \<rparr>]
                        else acc)
                      (filter (\<lambda>e. e_from e \<noteq> nodeId \<and> e_to e \<noteq> nodeId) (edges (topology m)))
                      (or_arr (neighbors nodeInfo))
               else edges (topology m))
     in m\<lparr> topology := \<lparr> topo_nodes = tns, edges = es \<rparr> \<rparr>)"

definition updateStatistics :: "int \<Rightarrow> stats_data option \<Rightarrow> monitor \<Rightarrow> monitor" where
  "updateStatistics now statsData m =
    calculateGlobalStatistics now
      (case statsData of
         None \<Rightarrow> m
       | Some sd \<Rightarrow>
          (case sd_nodeId sd of
             Val k \<Rightarrow>
               (if k \<noteq> [] then
                  (case map_of (nodes m) k of
                     None \<Rightarrow> m
                   | Some n \<Rightarrow>
                       m\<lparr> nodes := AList.update k
                             (n\<lparr> bytesSent := Val (or0 (sd_bytesSent sd)),
                                 bytesReceived := Val (or0 (sd_bytesReceived sd)),
                                 node_messagesRelayed := Val (or0 (sd_messagesRelayed sd)) \<rparr>)
                             (nodes m),
                          performanceMetrics := AList.update k
                             (spread_stats
                                (case map_of (performanceMetrics m) k of
                                   None \<Rightarrow> empty_stats | Some pm \<Rightarrow> fst pm) sd, now)
                             (performanceMetrics m) \<rparr>)
                else m)
           | _ \<Rightarrow> m))"

definition updateNode :: "int \<Rightarrow> string \<Rightarrow> node \<Rightarrow> monitor \<Rightarrow> monitor" where
  "updateNode now nodeId nodeInfo m =
    (let existingNode = (case map_of (nodes m) nodeId of None \<Rightarrow> empty_node | Some n \<Rightarrow> n);
         updatedNode = (spread_node existingNode nodeInfo)\<lparr> lastUpdated := Val now \<rparr>
     in updateStatistics now None
          (updateTopologyFromNode nodeId updatedNode
             (m\<lparr> nodes := AList.update nodeId updatedNode (nodes m) \<rparr>)))"

text \<open>The guard of the source: \<open>previousHolder && previousHolder !== tokenData.currentHolder\<close>.\<close>

definition token_moved :: "string field \<Rightarrow> string field \<Rightarrow> bool" where
  "token_moved previousHolder newHolder =
     (truthy_str previousHolder \<and> previousHolder \<noteq> newHolder)"

definition updateTokenStatus :: "int \<Rightarrow> token_data \<Rightarrow> monitor \<Rightarrow> monitor" where
  "updateTokenStatus now tokenData m =
    (let previousHolder = currentHolder (tokenStatus m);
         ts = (tokenStatus m)\<lparr>
                currentHolder := spread_field (currentHolder (tokenStatus m)) (td_currentHolder tokenData),
                sequence := spread_field (sequence (tokenStatus m)) (td_sequence tokenData),
                phase := spread_field (phase (tokenStatus m)) (td_phase tokenData),
                traversalDepth := spread_field (traversalDepth (tokenStatus m)) (td_traversalDepth tokenData),
                lastMovement := Val now \<rparr>;
         m1 = m\<lparr> tokenStatus := ts \<rparr>;
         m2 = (if token_moved previousHolder (td_currentHolder tokenData)
               then m1\<lparr> tokenHistory :=
                          (let h = tokenHistory m1 @
                                 [\<lparr> mv_from = or_str previousHolder [],
                                    mv_to = td_currentHolder tokenData,
                                    mv_timestamp = now,
                                    mv_sequence = td_sequence tokenData,
                                    mv_phase = td_phase tokenData,
                                    mv_depth = td_traversalDepth tokenData \<rparr>]
                           in if length h > 1000 then slice_last 1000 h else h),
                        statistics := (statistics m1)\<lparr>
                          tokenCirculations := tokenCirculations (statistics m1) + 1 \<rparr> \<rparr>
               else m1)
     in (case td_currentHolder tokenData of
           Val k \<Rightarrow>
             (if k \<noteq> [] then
                (case map_of (nodes m2) k of
                   None \<Rightarrow> m2
                 | Some n \<Rightarrow> m2\<lparr> nodes := AList.update k
                               (n\<lparr> tokenHolds := Val (or0 (tokenHolds n) + 1),
                                   lastTokenHold := Val now \<rparr>) (nodes m2) \<rparr>)
              else m2)
         | _ \<Rightarrow> m2))"

definition updateTopology :: "topology_data \<Rightarrow> monitor \<Rightarrow> monitor" where
  "updateTopology topologyData m =
    (case tp_nodeId topologyData of
       Val k \<Rightarrow>
         (if k \<noteq> [] then
            (case map_of (nodes m) k of
               None \<Rightarrow> m
             | Some n \<Rightarrow>
                 (let n' = n\<lparr> neighbors := Val (or_arr (tp_neighbors topologyData)) \<rparr>
                  in updateTopologyFromNode k n' (m\<lparr> nodes := AList.update k n' (nodes m) \<rparr>)))
          else m)
     | _ \<Rightarrow> m)"

definition updateDfsState :: "int \<Rightarrow> dfs_data \<Rightarrow> monitor \<Rightarrow> monitor" where
  "updateDfsState now dfsData m =
    (case dfs_nodeId dfsData of
       Val k \<Rightarrow>
         (if k \<noteq> [] then
            (let ds = AList.update k (dfsData, now) (dfsState m)
             in m\<lparr> dfsState := ds,
                   tokenStatus := (tokenStatus m)\<lparr>
                     phase := (if truthy_str (dfs_phase dfsData) then dfs_phase dfsData
                               else phase (tokenStatus m)),
                     traversalDepth := (if truthy_num (dfs_depth dfsData) then dfs_depth dfsData
                                        else traversalDepth (tokenStatus m)),
                     visitedCount := length ds \<rparr> \<rparr>)
          else m)
     | _ \<Rightarrow> m)"

definition removeNode :: "int \<Rightarrow> string \<Rightarrow> monitor \<Rightarrow> monitor" where
  "removeNode now nodeId m =
    updateStatistics now None
      (m\<lparr> nodes := AList.delete nodeId (nodes m),
          dfsState := AList.delete nodeId (dfsState m),
          performanceMetrics := AList.delete nodeId (performanceMetrics m),
          topology := \<lparr> topo_nodes = filter (\<lambda>n. tn_id n \<noteq> nodeId) (topo_nodes (topology m)),
                        edges = filter (\<lambda>e. e_from e \<noteq> nodeId \<and> e_to e \<noteq> nodeId)
                                  (edges (topology m)) \<rparr> \<rparr>)"

definition reset :: "int \<Rightarrow> monitor \<Rightarrow> monitor" where
  "reset now m =
    calculateGlobalStatistics now
      (m\<lparr> nodes := [], dfsState := [], performanceMetrics := [], tokenHistory := [],
          topology := \<lparr> topo_nodes = [], edges = [] \<rparr>,
          tokenStatus := initial_tokenStatus \<rparr>)"

text \<open>Any sequence of calls of the monitor's mutating methods on a fresh monitor.\<close>

datatype op =
    OpUpdateNode int string node
  | OpUpdateTokenStatus int token_data
  | OpUpdateTopology topology_data
  | OpUpdateStatistics int "stats_data option"
  | OpUpdateDfsState int dfs_data
  | OpRemoveNode int string
  | OpReset int

fun apply_op :: "op \<Rightarrow> monitor \<Rightarrow> monitor" where
  "apply_op (OpUpdateNode now k info) m = updateNode now k info m"
| "apply_op (OpUpdateTokenStatus now d) m = updateTokenStatus now d m"
| "apply_op (OpUpdateTopology d) m = updateTopology d m"
| "apply_op (OpUpdateStatistics now d) m = updateStatistics now d m"
| "apply_op (OpUpdateDfsState now d) m = updateDfsState now d m"
| "apply_op (OpRemoveNode now k) m = removeNode now k m"
| "apply_op (OpReset now) m = reset now m"

fun run_from :: "monitor \<Rightarrow> op list \<Rightarrow> monitor" where
  "run_from m [] = m"
| "run_from m (x # xs) = run_from (apply_op x m) xs"

definition run :: "op list \<Rightarrow> monitor" where
  "run ops = run_from constructor ops"




text \<open>Sequences of \<open>token_status\<close> updates, each at its own time.\<close>

fun token_run :: "(int \<times> token_data) list \<Rightarrow> monitor \<Rightarrow> monitor" where
  "token_run [] m = m"
| "token_run ((now, d) # us) m = token_run us (updateTokenStatus now d m)"

text \<open>
  What the guard of \<open>updateTokenStatus\<close> counts along a sequence of updates, told from
  the updates alone: \<open>h\<close> is the holder before the first of them.
\<close>

fun holder_moves :: "string field \<Rightarrow> (int \<times> token_data) list \<Rightarrow> nat" where
  "holder_moves h [] = 0"
| "holder_moves h ((now, d) # us) =
     (if token_moved h (td_currentHolder d) then 1 else 0)
       + holder_moves (spread_field h (td_currentHolder d)) us"

fun movement_records :: "string field \<Rightarrow> (int \<times> token_data) list \<Rightarrow> movement list" where
  "movement_records h [] = []"
| "movement_records h ((now, d) # us) =
     (if token_moved h (td_currentHolder d)
      then [\<lparr> mv_from = or_str h [], mv_to = td_currentHolder d, mv_timestamp = now,
              mv_sequence = td_sequence d, mv_phase = td_phase d,
              mv_depth = td_traversalDepth d \<rparr>]
      else [])
       @ movement_records (spread_field h (td_currentHolder d)) us"

text \<open>
  The count in the words of the specification: an update counts when the holder changes
  to a different non-null value from a different non-null previous holder.
\<close>

definition spec_holder_change :: "string field \<Rightarrow> string field \<Rightarrow> bool" where
  "spec_holder_change prev new = (case (prev, new) of (Val a, Val b) \<Rightarrow> a \<noteq> b | _ \<Rightarrow> False)"

fun spec_tokenCirculations :: "string field \<Rightarrow> (int \<times> token_data) list \<Rightarrow> nat" where
  "spec_tokenCirculations h [] = 0"
| "spec_tokenCirculations h ((now, d) # us) =
     (if spec_holder_change h (td_currentHolder d) then 1 else 0)
       + spec_tokenCirculations (spread_field h (td_currentHolder d)) us"

definition holder_report :: "string field \<Rightarrow> token_data" where
  "holder_report h = \<lparr> td_nodeId = Absent, td_currentHolder = h, td_sequence = Absent,
     td_phase = Absent, td_traversalDepth = Absent \<rparr>"

section \<open>The recorder and the playback of the server\<close>

text \<open>
  A parsed report: its \<open>type\<close> and its \<open>data\<close>. A \<open>node_info\<close> report carries the
  \<open>nodeId\<close> of its data apart from the other keys. The \<open>timestamp\<close> of a report is
  never read by the server.
\<close>

datatype message =
    NodeInfoMsg string node
  | TokenStatusMsg token_data
  | TopologyUpdateMsg topology_data
  | StatisticsUpdateMsg stats_data
  | DfsStateMsg dfs_data
  | OtherMsg string "string field"

fun message_type :: "message \<Rightarrow> string" where
  "message_type (NodeInfoMsg k d) = ''node_info''"
| "message_type (TokenStatusMsg d) = ''token_status''"
| "message_type (TopologyUpdateMsg d) = ''topology_update''"
| "message_type (StatisticsUpdateMsg d) = ''statistics_update''"
| "message_type (DfsStateMsg d) = ''dfs_state''"
| "message_type (OtherMsg t k) = t"

text \<open>\<open>data.nodeId || null\<close>, the \<open>node_id\<close> column of a recorded event.\<close>

definition or_null :: "string field \<Rightarrow> string option" where
  "or_null x = (case x of Val s \<Rightarrow> (if s \<noteq> [] then Some s else None) | _ \<Rightarrow> None)"

fun message_nodeId :: "message \<Rightarrow> string option" where
  "message_nodeId (NodeInfoMsg k d) = or_null (Val k)"
| "message_nodeId (TokenStatusMsg d) = or_null (td_nodeId d)"
| "message_nodeId (TopologyUpdateMsg d) = or_null (tp_nodeId d)"
| "message_nodeId (StatisticsUpdateMsg d) = or_null (sd_nodeId d)"
| "message_nodeId (DfsStateMsg d) = or_null (dfs_nodeId d)"
| "message_nodeId (OtherMsg t k) = or_null k"

text \<open>
  A row of the table \<open>network_events\<close>. The column \<open>id\<close> is the ordinal that
  AUTOINCREMENT gives at insertion; \<open>data\<close> is the report again, since
  \<open>JSON.parse\<close> reads back what \<open>JSON.stringify\<close> stored.
\<close>

record network_event =
  ev_id :: nat
  ev_session_id :: string
  ev_timestamp :: int
  ev_event_type :: string
  ev_node_id :: "string option"
  ev_data :: message

record database =
  currentSessionId :: "string option"
  network_events :: "network_event list"
  lastID :: nat

definition startRecordingSession :: "string \<Rightarrow> database \<Rightarrow> database" where
  "startRecordingSession uuid db = db\<lparr> currentSessionId := Some uuid \<rparr>"

definition recordEvent :: "message \<Rightarrow> int \<Rightarrow> database \<Rightarrow> database" where
  "recordEvent msg timestamp db =
    (case currentSessionId db of
       None \<Rightarrow> db
     | Some sid \<Rightarrow>
         db\<lparr> network_events := network_events db @
                [\<lparr> ev_id = lastID db + 1, ev_session_id = sid, ev_timestamp = timestamp,
                   ev_event_type = message_type msg, ev_node_id = message_nodeId msg,
                   ev_data = msg \<rparr>],
             lastID := lastID db + 1 \<rparr>)"

text \<open>
  \<open>SELECT * FROM network_events WHERE session_id = ? ORDER BY timestamp ASC\<close>. SQL leaves
  the order of rows with equal timestamps open; here they keep their order in the table.
\<close>

definition getRecordingEvents :: "database \<Rightarrow> string \<Rightarrow> network_event list" where
  "getRecordingEvents db sessionId =
     sort_key ev_timestamp (filter (\<lambda>e. ev_session_id e = sessionId) (network_events db))"

text \<open>The events of a session by ordinal: the rows of the session in ascending \<open>id\<close>.\<close>

definition events_by_ordinal :: "database \<Rightarrow> string \<Rightarrow> network_event list" where
  "events_by_ordinal db sessionId =
     sort_key ev_id (filter (\<lambda>e. ev_session_id e = sessionId) (network_events db))"

datatype emission = PlaybackEvent network_event | PlaybackComplete

text \<open>
  The closure of \<open>startPlayback\<close>: the loaded events, \<open>eventIndex\<close>, and whether the
  interval is still set. Each firing of the interval is one \<open>tick\<close>.
\<close>

record playback =
  pb_events :: "network_event list"
  eventIndex :: nat
  playbackInterval :: bool

definition startPlayback :: "database \<Rightarrow> string \<Rightarrow> playback" where
  "startPlayback db sessionId =
     \<lparr> pb_events = getRecordingEvents db sessionId, eventIndex = 0, playbackInterval = True \<rparr>"

definition tick :: "playback \<Rightarrow> emission list \<times> playback" where
  "tick p =
    (if \<not> playbackInterval p then ([], p)
     else if eventIndex p \<ge> length (pb_events p)
          then ([PlaybackComplete], p\<lparr> playbackInterval := False \<rparr>)
          else ([PlaybackEvent (pb_events p ! eventIndex p)], p\<lparr> eventIndex := eventIndex p + 1 \<rparr>))"

fun ticks :: "nat \<Rightarrow> playback \<Rightarrow> emission list \<times> playback" where
  "ticks 0 p = ([], p)"
| "ticks (Suc n) p = (let (out, p1) = tick p; (rest, p2) = ticks n p1 in (out @ rest, p2))"

section \<open>The TCP side of server.js\<close>

datatype payload =
    ReportData message
  | NodeInfoData string node
  | DisconnectedData string

record server =
  connectedNodes :: "(string \<times> node) list"
  networkMonitor :: monitor
  database :: database
  isRecording :: bool
  emitted :: "(string \<times> payload) list"

definition new_server :: server where
  "new_server = \<lparr> connectedNodes = [], networkMonitor = constructor,
     database = \<lparr> currentSessionId = None, network_events = [], lastID = 0 \<rparr>,
     isRecording = False, emitted = [] \<rparr>"

definition broadcastToClients :: "string \<Rightarrow> payload \<Rightarrow> server \<Rightarrow> server" where
  "broadcastToClients event data s = s\<lparr> emitted := emitted s @ [(event, data)] \<rparr>"

definition handleNodeInfo :: "nat \<Rightarrow> string \<Rightarrow> node \<Rightarrow> int \<Rightarrow> server \<Rightarrow> server" where
  "handleNodeInfo sock nodeId data timestamp s =
    (let nodeInfo = data\<lparr> socket := Val sock, lastSeen := Val timestamp, status := Val ''active'' \<rparr>
     in broadcastToClients ''node_info'' (NodeInfoData nodeId nodeInfo)
          (s\<lparr> connectedNodes := AList.update nodeId nodeInfo (connectedNodes s),
              networkMonitor := updateNode timestamp nodeId nodeInfo (networkMonitor s) \<rparr>))"

definition handleNodeMessage :: "int \<Rightarrow> nat \<Rightarrow> message \<Rightarrow> server \<Rightarrow> server" where
  "handleNodeMessage timestamp sock msg s =
    (let s1 = (case msg of
                 NodeInfoMsg k d \<Rightarrow> handleNodeInfo sock k d timestamp s
               | TokenStatusMsg d \<Rightarrow>
                   broadcastToClients ''token_status'' (ReportData msg)
                     (s\<lparr> networkMonitor := updateTokenStatus timestamp d (networkMonitor s) \<rparr>)
               | TopologyUpdateMsg d \<Rightarrow>
                   broadcastToClients ''topology_update'' (ReportData msg)
                     (s\<lparr> networkMonitor := updateTopology d (networkMonitor s) \<rparr>)
               | StatisticsUpdateMsg d \<Rightarrow>
                   broadcastToClients ''statistics_update'' (ReportData msg)
                     (s\<lparr> networkMonitor := updateStatistics timestamp (Some d) (networkMonitor s) \<rparr>)
               | DfsStateMsg d \<Rightarrow>
                   broadcastToClients ''dfs_state'' (ReportData msg)
                     (s\<lparr> networkMonitor := updateDfsState timestamp d (networkMonitor s) \<rparr>)
               | OtherMsg t k \<Rightarrow> s)
     in if isRecording s1 then s1\<lparr> database := recordEvent msg timestamp (database s1) \<rparr> else s1)"

text \<open>
  What a socket delivers is a sequence of bytes; JavaScript text is a sequence of UTF-16
  code units. \<open>data.toString()\<close> is the UTF-8 decoder of the platform: a sequence that is
  not well formed, or that the read ends before completing, decodes to U+FFFD, once for
  every maximal part of an ill-formed sequence; a code point above U+FFFF becomes a
  surrogate pair. The recursion keeps the number of continuation bytes still expected,
  the code point collected so far and the range allowed for the next byte.
\<close>

type_synonym bytes = "nat list"

type_synonym js_text = "nat list"

fun utf8_decode :: "nat \<Rightarrow> nat \<Rightarrow> nat \<Rightarrow> nat \<Rightarrow> bytes \<Rightarrow> nat list" where
  "utf8_decode needed cp lo hi [] = (if needed = 0 then [] else [0xFFFD])"
| "utf8_decode needed cp lo hi (b # bs) =
     (if needed = 0 then
        (if b < 0x80 then b # utf8_decode 0 0 0x80 0xBF bs
         else if 0xC2 \<le> b \<and> b \<le> 0xDF then utf8_decode 1 (b mod 0x20) 0x80 0xBF bs
         else if 0xE0 \<le> b \<and> b \<le> 0xEF then
           utf8_decode 2 (b mod 0x10) (if b = 0xE0 then 0xA0 else 0x80)
             (if b = 0xED then 0x9F else 0xBF) bs
         else if 0xF0 \<le> b \<and> b \<le> 0xF4 then
           utf8_decode 3 (b mod 8) (if b = 0xF0 then 0x90 else 0x80)
             (if b = 0xF4 then 0x8F else 0xBF) bs
         else 0xFFFD # utf8_decode 0 0 0x80 0xBF bs)
      else if b < lo \<or> hi < b then 0xFFFD # utf8_decode 0 0 0x80 0xBF (b # bs)
      else if needed = 1 then (cp * 0x40 + b mod 0x40) # utf8_decode 0 0 0x80 0xBF bs
      else utf8_decode (needed - 1) (cp * 0x40 + b mod 0x40) 0x80 0xBF bs)"

definition utf16 :: "nat \<Rightarrow> js_text" where
  "utf16 cp = (if cp < 0x10000 then [cp]
               else [0xD800 + (cp - 0x10000) div 0x400, 0xDC00 + (cp - 0x10000) mod 0x400])"

definition utf8_toString :: "bytes \<Rightarrow> js_text" where
  "utf8_toString bs = concat (map utf16 (utf8_decode 0 0 0x80 0xBF bs))"

text \<open>The bytes, and the code units, of a text of ASCII characters.\<close>

definition ascii :: "string \<Rightarrow> nat list" where
  "ascii s = map of_char s"

text \<open>The per-connection variables \<open>nodeId\<close> and \<open>buffer\<close> of \<open>setupTcpServer\<close>.\<close>

record connection =
  conn_nodeId :: "string option"
  buffer :: js_text

definition new_connection :: connection where
  "new_connection = \<lparr> conn_nodeId = None, buffer = [] \<rparr>"

definition newline :: nat where
  "newline = 0x0A"

text \<open>\<open>str.split('\n')\<close>: never empty, its last entry is what follows the last newline.\<close>

fun split_nl :: "js_text \<Rightarrow> js_text list" where
  "split_nl [] = [[]]"
| "split_nl (c # cs) =
     (if c = newline then [] # split_nl cs
      else (case split_nl cs of [] \<Rightarrow> [[c]] | l # ls \<Rightarrow> (c # l) # ls))"

text \<open>
  \<open>messageStr.trim()\<close> is falsy when the line holds only white space and line
  terminators of the language.
\<close>

definition is_space :: "nat \<Rightarrow> bool" where
  "is_space c = (c \<in> {0x09, 0x0A, 0x0B, 0x0C, 0x0D, 0x20, 0xA0, 0x1680, 0x2028, 0x2029,
                       0x202F, 0x205F, 0x3000, 0xFEFF}
                 \<or> (0x2000 \<le> c \<and> c \<le> 0x200A))"

definition blank :: "js_text \<Rightarrow> bool" where
  "blank l = list_all is_space l"

text \<open>
  The body of \<open>messages.forEach\<close>. \<open>JSON.parse\<close> is the parameter \<open>parse\<close>; \<open>None\<close> is
  the exception that the \<open>catch\<close> logs.
\<close>

definition process_line ::
  "(js_text \<Rightarrow> message option) \<Rightarrow> int \<Rightarrow> nat \<Rightarrow> connection \<times> server \<Rightarrow> js_text \<Rightarrow> connection \<times> server"
where
  "process_line parse now sock cs messageStr =
    (if \<not> blank messageStr then
       (case parse messageStr of
          None \<Rightarrow> cs
        | Some msg \<Rightarrow>
            (let s1 = handleNodeMessage now sock msg (snd cs)
             in (case msg of
                   NodeInfoMsg k d \<Rightarrow> ((fst cs)\<lparr> conn_nodeId := Some k \<rparr>, s1)
                 | _ \<Rightarrow> (fst cs, s1))))
     else cs)"

text \<open>
  The handler of \<open>data\<close>. Each read is decoded on its own, \<open>buffer += data.toString()\<close>;
  the decoder is the parameter \<open>toString\<close>.
\<close>

definition on_data ::
  "(bytes \<Rightarrow> js_text) \<Rightarrow> (js_text \<Rightarrow> message option) \<Rightarrow> int \<Rightarrow> nat \<Rightarrow> bytes
     \<Rightarrow> connection \<times> server \<Rightarrow> connection \<times> server"
where
  "on_data toString parse now sock chunk cs =
    (let messages = split_nl (buffer (fst cs) @ toString chunk)
     in foldl (process_line parse now sock)
          ((fst cs)\<lparr> buffer := last messages \<rparr>, snd cs) (butlast messages))"

definition on_close :: "connection \<Rightarrow> server \<Rightarrow> server" where
  "on_close c s =
    (case conn_nodeId c of
       None \<Rightarrow> s
     | Some k \<Rightarrow>
         (if k \<noteq> [] \<and> map_of (connectedNodes s) k \<noteq> None
          then broadcastToClients ''node_disconnected'' (DisconnectedData k)
                 (s\<lparr> connectedNodes := AList.delete k (connectedNodes s) \<rparr>)
          else s))"

section \<open>Predicates and inputs of the statements\<close>

text \<open>Every edge of the topology joins two keys of the \<open>nodes\<close> Map.\<close>

definition edges_ok :: "monitor \<Rightarrow> bool" where
  "edges_ok m = list_all (\<lambda>e. has_node m (e_from e) \<and> has_node m (e_to e)) (edges (topology m))"

text \<open>The data of a \<open>node_info\<close> report that carries a neighbour list and nothing else.\<close>

definition neighbors_report :: "string list \<Rightarrow> node" where
  "neighbors_report ns = empty_node\<lparr> neighbors := Val ns \<rparr>"

text \<open>A \<open>statistics_update\<close> report that carries \<open>messagesRelayed\<close> for one node.\<close>

definition relayed_report :: "string \<Rightarrow> int \<Rightarrow> stats_data" where
  "relayed_report k r = \<lparr> sd_nodeId = Val k, sd_bytesSent = Absent, sd_bytesReceived = Absent,
     sd_messagesRelayed = Val r \<rparr>"






text \<open>
  A store in which the session \<open>s\<close> holds two recorded events, the first dispatched at
  time \<open>t1\<close> and the second at time \<open>t2\<close>.
\<close>

definition recorded_pair :: "int \<Rightarrow> int \<Rightarrow> database" where
  "recorded_pair t1 t2 =
     recordEvent (OtherMsg ''second'' Absent) t2
       (recordEvent (OtherMsg ''first'' Absent) t1
          (startRecordingSession ''s''
             \<lparr> currentSessionId = None, network_events = [], lastID = 0 \<rparr>))"

text \<open>Writing the buffer of a connection.\<close>

definition set_buffer :: "js_text \<Rightarrow> connection \<times> server \<Rightarrow> connection \<times> server" where
  "set_buffer b cs = ((fst cs)\<lparr> buffer := b \<rparr>, snd cs)"

text \<open>
  A sequence of \<open>node_info\<close> reports for the node \<open>k\<close>, each with the time of its
  dispatch, the socket it came from and its data.
\<close>

fun node_info_run :: "string \<Rightarrow> (int \<times> nat \<times> node) list \<Rightarrow> server \<Rightarrow> server" where
  "node_info_run k [] s = s"
| "node_info_run k ((t, sock, d) # rs) s =
     node_info_run k rs (handleNodeMessage t sock (NodeInfoMsg k d) s)"

definition report_data :: "(int \<times> nat \<times> node) \<Rightarrow> node" where
  "report_data r = snd (snd r)"

text \<open>The record the monitor keeps for \<open>k\<close>; no key at all while \<open>k\<close> is unknown.\<close>

definition stored_node :: "server \<Rightarrow> string \<Rightarrow> node" where
  "stored_node s k =
     (case map_of (nodes (networkMonitor s)) k of None \<Rightarrow> empty_node | Some n \<Rightarrow> n)"

text \<open>
  One key through a sequence of spreads: the value of the last report that owns the key,
  \<open>null\<close> included, and the old value when no report owns it.
\<close>

definition merged :: "'a field \<Rightarrow> 'a field list \<Rightarrow> 'a field" where
  "merged old vs = foldl spread_field old vs"

text \<open>In the words of the specification: the last non-null value supplied for a key.\<close>

fun spec_last_non_null :: "'a field list \<Rightarrow> 'a field" where
  "spec_last_non_null [] = Absent"
| "spec_last_non_null (x # xs) =
     (case spec_last_non_null xs of
        Val v \<Rightarrow> Val v
      | _ \<Rightarrow> (case x of Val v \<Rightarrow> Val v | _ \<Rightarrow> Absent))"

definition ip_report :: "string field \<Rightarrow> node" where
  "ip_report a = empty_node\<lparr> ip := a \<rparr>"


section \<open>Token movements (C1)\<close>

lemma slice_last_append: "slice_last n (slice_last n xs @ ys) = slice_last n (xs @ ys)"
  by (cases "n \<le> length xs") (auto simp: slice_last_def ac_simps)

lemma length_slice_last: "length (slice_last n xs) \<le> n"
  by (simp add: slice_last_def)

lemma slice_last_short: "length xs \<le> n \<Longrightarrow> slice_last n xs = xs"
  by (simp add: slice_last_def)

lemma updateTokenStatus_holder:
  "currentHolder (tokenStatus (updateTokenStatus now d m))
     = spread_field (currentHolder (tokenStatus m)) (td_currentHolder d)"
  by (simp add: updateTokenStatus_def Let_def split: field.splits option.splits)

lemma updateTokenStatus_circ:
  "tokenCirculations (statistics (updateTokenStatus now d m))
     = tokenCirculations (statistics m)
        + (if token_moved (currentHolder (tokenStatus m)) (td_currentHolder d) then 1 else 0)"
  by (simp add: updateTokenStatus_def Let_def split: field.splits option.splits)

lemma updateTokenStatus_history:
  "tokenHistory (updateTokenStatus now d m)
     = (if token_moved (currentHolder (tokenStatus m)) (td_currentHolder d)
        then slice_last 1000 (tokenHistory m @
               [\<lparr> mv_from = or_str (currentHolder (tokenStatus m)) [], mv_to = td_currentHolder d,
                  mv_timestamp = now, mv_sequence = td_sequence d, mv_phase = td_phase d,
                  mv_depth = td_traversalDepth d \<rparr>])
        else tokenHistory m)"
  by (simp add: updateTokenStatus_def Let_def slice_last_def split: field.splits option.splits)

lemma token_run_circ:
  "tokenCirculations (statistics (token_run us m))
     = tokenCirculations (statistics m) + holder_moves (currentHolder (tokenStatus m)) us"
  by (induction us m rule: token_run.induct)
     (simp_all add: updateTokenStatus_circ updateTokenStatus_holder)

lemma token_run_history:
  "slice_last 1000 (tokenHistory (token_run us m))
     = slice_last 1000 (tokenHistory m @ movement_records (currentHolder (tokenStatus m)) us)"
proof (induction us m rule: token_run.induct)
  case (1 m)
  show ?case by simp
next
  case (2 now d us m)
  show ?case
    by (simp add: 2 updateTokenStatus_history updateTokenStatus_holder slice_last_append)
qed

lemma token_run_history_len:
  "length (tokenHistory m) \<le> 1000 \<Longrightarrow> length (tokenHistory (token_run us m)) \<le> 1000"
  by (induction us m rule: token_run.induct)
     (simp_all add: updateTokenStatus_history length_slice_last)

lemma movement_records_length: "length (movement_records h us) = holder_moves h us"
  by (induction h us rule: movement_records.induct) auto

text \<open>
  C1, as the specification states it, fails: a fresh monitor is told that \<open>node_A\<close> holds
  the token and then that the holder is \<open>null\<close>. No update changed the holder to a
  non-null value from a non-null holder, yet the second update is counted and a record
  from \<open>node_A\<close> to \<open>null\<close> is appended.
\<close>

theorem tokenCirculations_counts_null_holder:
  "tokenCirculations (statistics (token_run
       [(1, holder_report (Val ''node_A'')), (2, holder_report Null)] constructor)) = 1
   \<and> spec_tokenCirculations Null
       [(1, holder_report (Val ''node_A'')), (2, holder_report Null)] = 0
   \<and> map (\<lambda>r. (mv_from r, mv_to r)) (tokenHistory (token_run
       [(1, holder_report (Val ''node_A'')), (2, holder_report Null)] constructor))
       = [(''node_A'', Null)]"
  by (simp add: updateTokenStatus_def holder_report_def constructor_def initial_tokenStatus_def
      Let_def token_moved_def truthy_str_def spread_field_def spec_holder_change_def or_str_def)

text \<open>
  C1, amended: for every sequence of \<open>token_status\<close> updates applied to a fresh monitor,
  \<open>tokenCirculations\<close> is the number of updates whose previous holder is a non-empty
  string and is not the \<open>currentHolder\<close> of the update (which may be another node, \<open>null\<close>
  or missing); each such update appends exactly one record, so that the records are as
  many as the count, and \<open>tokenHistory\<close> holds the last 1000 of them.
\<close>

theorem tokenCirculations_counts_guard:
  "tokenCirculations (statistics (token_run us constructor)) = holder_moves Null us
   \<and> length (movement_records Null us) = holder_moves Null us
   \<and> tokenHistory (token_run us constructor) = slice_last 1000 (movement_records Null us)"
proof -
  have "length (tokenHistory (token_run us constructor)) \<le> 1000"
    by (rule token_run_history_len) (simp add: constructor_def)
  then have "tokenHistory (token_run us constructor)
      = slice_last 1000 (tokenHistory (token_run us constructor))"
    by (simp add: slice_last_short)
  also have "\<dots> = slice_last 1000 (movement_records Null us)"
    by (simp add: token_run_history constructor_def initial_tokenStatus_def)
  finally show ?thesis
    using token_run_circ [of us constructor]
    by (simp add: movement_records_length constructor_def initial_tokenStatus_def)
qed

theorem tokenCirculations_counts_guard_witness:
  "tokenCirculations (statistics (token_run
       [(1, holder_report (Val ''node_A'')), (2, holder_report (Val ''node_B'')),
        (3, holder_report (Val ''node_A''))] constructor)) = 2
   \<and> map (\<lambda>r. (mv_from r, mv_to r)) (tokenHistory (token_run
       [(1, holder_report (Val ''node_A'')), (2, holder_report (Val ''node_B'')),
        (3, holder_report (Val ''node_A''))] constructor))
       = [(''node_A'', Val ''node_B''), (''node_B'', Val ''node_A'')]"
  using tokenCirculations_counts_guard
    [of "[(1, holder_report (Val ''node_A'')), (2, holder_report (Val ''node_B'')),
          (3, holder_report (Val ''node_A''))]"]
  by (simp add: holder_report_def token_moved_def truthy_str_def spread_field_def or_str_def
      slice_last_def)

section \<open>Edges and nodes (C9)\<close>

lemma has_node_iff: "has_node m k \<longleftrightarrow> k \<in> fst ` set (nodes m)"
  by (simp add: has_node_def map_of_eq_None_iff)

lemma edges_okI:
  "(\<And>e. e \<in> set (edges (topology m)) \<Longrightarrow> has_node m (e_from e) \<and> has_node m (e_to e)) \<Longrightarrow> edges_ok m"
  by (simp add: edges_ok_def list_all_iff)

lemma edges_okD:
  "edges_ok m \<Longrightarrow> e \<in> set (edges (topology m)) \<Longrightarrow> has_node m (e_from e) \<and> has_node m (e_to e)"
  by (simp add: edges_ok_def list_all_iff)

lemma set_add_edges:
  "set (foldl (\<lambda>acc nb. if P nb then acc @ [mk nb] else acc) init ns)
     = set init \<union> mk ` {nb \<in> set ns. P nb}"
  by (induction ns arbitrary: init) auto

lemma has_node_update:
  "nodes m' = AList.update k v (nodes m) \<Longrightarrow> has_node m' k' \<longleftrightarrow> k' = k \<or> has_node m k'"
  by (simp add: has_node_def AList.update_conv')

lemma has_node_delete:
  "nodes m' = AList.delete k (nodes m) \<Longrightarrow> has_node m' k' \<longleftrightarrow> k' \<noteq> k \<and> has_node m k'"
  by (simp add: has_node_def AList.delete_conv')

lemma has_node_cong: "nodes m' = nodes m \<Longrightarrow> has_node m' k = has_node m k"
  by (simp add: has_node_def)

lemma calc_nodes: "nodes (calculateGlobalStatistics now m) = nodes m"
  by (simp add: calculateGlobalStatistics_def Let_def)

lemma calc_topology: "topology (calculateGlobalStatistics now m) = topology m"
  by (simp add: calculateGlobalStatistics_def Let_def)

lemma updateStatistics_has_node:
  "has_node (updateStatistics now sd m) k' = has_node m k'"
  by (simp add: updateStatistics_def has_node_def calc_nodes AList.update_conv'
      split: option.splits field.splits)

lemma updateStatistics_topology:
  "topology (updateStatistics now sd m) = topology m"
  by (simp add: updateStatistics_def calc_topology split: option.splits field.splits)

lemma utfn_nodes: "nodes (updateTopologyFromNode k info m) = nodes m"
  by (simp add: updateTopologyFromNode_def Let_def)

lemma utfn_edges:
  "e \<in> set (edges (topology (updateTopologyFromNode k info m))) \<Longrightarrow>
     e \<in> set (edges (topology m)) \<or> (e_from e = k \<and> has_node m (e_to e))"
  by (auto simp: updateTopologyFromNode_def Let_def set_add_edges split: if_splits)

lemma utfn_edges_ok:
  assumes "edges_ok m" "has_node m k"
  shows "edges_ok (updateTopologyFromNode k info m)"
proof (rule edges_okI)
  fix e assume "e \<in> set (edges (topology (updateTopologyFromNode k info m)))"
  from utfn_edges [OF this] assms edges_okD [OF assms(1), of e]
  show "has_node (updateTopologyFromNode k info m) (e_from e)
      \<and> has_node (updateTopologyFromNode k info m) (e_to e)"
    by (auto simp: has_node_cong [OF utfn_nodes])
qed

lemma edges_ok_mono:
  assumes "edges_ok m" "\<And>k. has_node m k \<Longrightarrow> has_node m' k" "topology m' = topology m"
  shows "edges_ok m'"
proof (rule edges_okI)
  fix e assume "e \<in> set (edges (topology m'))"
  with assms(3) have "e \<in> set (edges (topology m))" by simp
  from edges_okD [OF assms(1) this] assms(2)
  show "has_node m' (e_from e) \<and> has_node m' (e_to e)" by blast
qed

lemma updateNode_edges_ok: 
  assumes ok: "edges_ok m" shows "edges_ok (updateNode now k info m)"
proof -
  define n where "n = (spread_node (case map_of (nodes m) k of None \<Rightarrow> empty_node | Some n \<Rightarrow> n) info)\<lparr> lastUpdated := Val now \<rparr>"
  define m1 where "m1 = m\<lparr> nodes := AList.update k n (nodes m) \<rparr>"
  have hn: "has_node m1 k' \<longleftrightarrow> k' = k \<or> has_node m k'" for k'
    by (rule has_node_update) (simp add: m1_def)
  have "edges_ok m1"
    by (rule edges_ok_mono [OF ok]) (simp_all add: hn, simp add: m1_def)
  then have "edges_ok (updateTopologyFromNode k n m1)"
    by (rule utfn_edges_ok) (simp add: hn)
  then have "edges_ok (updateStatistics now None (updateTopologyFromNode k n m1))"
    by (rule edges_ok_mono) (simp_all add: updateStatistics_has_node updateStatistics_topology)
  then show ?thesis by (simp add: updateNode_def Let_def n_def m1_def)
qed

lemma updateTokenStatus_has_node:
  "has_node (updateTokenStatus now d m) k' = has_node m k'"
  by (simp add: updateTokenStatus_def Let_def has_node_def AList.update_conv'
      split: option.splits field.splits)

lemma updateTokenStatus_topology:
  "topology (updateTokenStatus now d m) = topology m"
  by (simp add: updateTokenStatus_def Let_def split: option.splits field.splits)

lemma updateTopology_cases:
  "updateTopology d m = m \<or>
   (\<exists>k n. has_node m k \<and>
      updateTopology d m = updateTopologyFromNode k n (m\<lparr> nodes := AList.update k n (nodes m) \<rparr>))"
  by (auto simp: updateTopology_def Let_def has_node_def split: field.splits option.splits)

lemma updateTopology_edges_ok:
  assumes ok: "edges_ok m" shows "edges_ok (updateTopology d m)"
  using updateTopology_cases [of d m]
proof (elim disjE exE conjE)
  assume "updateTopology d m = m"
  with ok show ?thesis by simp
next
  fix k n
  assume k: "has_node m k"
    and eq: "updateTopology d m = updateTopologyFromNode k n (m\<lparr> nodes := AList.update k n (nodes m) \<rparr>)"
  define m1 where "m1 = m\<lparr> nodes := AList.update k n (nodes m) \<rparr>"
  have hn: "has_node m1 k' \<longleftrightarrow> k' = k \<or> has_node m k'" for k'
    by (rule has_node_update) (simp add: m1_def)
  have "edges_ok m1"
    by (rule edges_ok_mono [OF ok]) (simp_all add: hn, simp add: m1_def)
  then have "edges_ok (updateTopologyFromNode k n m1)"
    by (rule utfn_edges_ok) (simp add: hn)
  then show ?thesis by (simp add: eq m1_def)
qed

lemma updateDfsState_edges_ok: "edges_ok m \<Longrightarrow> edges_ok (updateDfsState now d m)"
  by (erule edges_ok_mono)
     (simp_all add: updateDfsState_def Let_def has_node_def split: field.splits)

lemma removeNode_edges:
  "e \<in> set (edges (topology (removeNode now k m))) \<longleftrightarrow>
     e \<in> set (edges (topology m)) \<and> e_from e \<noteq> k \<and> e_to e \<noteq> k"
  by (simp add: removeNode_def updateStatistics_topology)

lemma removeNode_has_node:
  "has_node (removeNode now k m) k' \<longleftrightarrow> k' \<noteq> k \<and> has_node m k'"
  unfolding removeNode_def updateStatistics_has_node
  by (simp add: has_node_def AList.delete_conv')

lemma removeNode_edges_ok:
  assumes ok: "edges_ok m" shows "edges_ok (removeNode now k m)"
proof (rule edges_okI)
  fix e assume "e \<in> set (edges (topology (removeNode now k m)))"
  then have "e \<in> set (edges (topology m))" "e_from e \<noteq> k" "e_to e \<noteq> k"
    by (simp_all add: removeNode_edges)
  with edges_okD [OF ok, of e]
  show "has_node (removeNode now k m) (e_from e) \<and> has_node (removeNode now k m) (e_to e)"
    by (simp add: removeNode_has_node)
qed

lemma reset_edges_ok: "edges_ok (reset now m)"
  by (simp add: edges_ok_def reset_def calc_topology)

lemma apply_op_edges_ok:
  assumes ok: "edges_ok m" shows "edges_ok (apply_op x m)"
proof (cases x)
  case (OpUpdateTokenStatus now d)
  have "edges_ok (updateTokenStatus now d m)"
    by (rule edges_ok_mono [OF ok])
       (simp_all add: updateTokenStatus_has_node updateTokenStatus_topology)
  with OpUpdateTokenStatus show ?thesis by simp
next
  case (OpUpdateStatistics now d)
  have "edges_ok (updateStatistics now d m)"
    by (rule edges_ok_mono [OF ok])
       (simp_all add: updateStatistics_has_node updateStatistics_topology)
  with OpUpdateStatistics show ?thesis by simp
qed (simp_all add: ok updateNode_edges_ok updateTopology_edges_ok updateDfsState_edges_ok
        removeNode_edges_ok reset_edges_ok)

lemma run_from_edges_ok: "edges_ok m \<Longrightarrow> edges_ok (run_from m ops)"
  by (induction ops arbitrary: m) (simp_all add: apply_op_edges_ok)

lemma run_edges_ok: "edges_ok (run ops)"
  unfolding run_def by (rule run_from_edges_ok) (simp add: edges_ok_def constructor_def)

lemmas monitor_defs = updateNode_def updateTopologyFromNode_def updateStatistics_def
  calculateGlobalStatistics_def Let_def has_node_def spread_node_def spread_field_def
  empty_node_def constructor_def initial_tokenStatus_def truthy_arr_def or_arr_def or_str_def
  or0_def

lemmas server_defs = handleNodeMessage_def handleNodeInfo_def broadcastToClients_def
  new_server_def

text \<open>
  C9: in every state that a sequence of calls of the monitor's methods reaches from a
  fresh monitor, both end points of every edge are keys of the node map; after
  \<open>removeNode k\<close> the key \<open>k\<close> is gone and no edge touches \<open>k\<close>.
\<close>

theorem edges_join_known_nodes:
  "(\<forall>e \<in> set (edges (topology (run ops))).
      e_from e \<in> fst ` set (nodes (run ops)) \<and> e_to e \<in> fst ` set (nodes (run ops)))
   \<and> k \<notin> fst ` set (nodes (removeNode now k (run ops)))
   \<and> (\<forall>e \<in> set (edges (topology (removeNode now k (run ops)))). e_from e \<noteq> k \<and> e_to e \<noteq> k)"
proof (intro conjI ballI)
  fix e assume "e \<in> set (edges (topology (run ops)))"
  from edges_okD [OF run_edges_ok this]
  show "e_from e \<in> fst ` set (nodes (run ops))" "e_to e \<in> fst ` set (nodes (run ops))"
    by (simp_all add: has_node_iff)
next
  show "k \<notin> fst ` set (nodes (removeNode now k (run ops)))"
    using removeNode_has_node [of now k "run ops" k] by (simp add: has_node_iff)
next
  fix e assume "e \<in> set (edges (topology (removeNode now k (run ops))))"
  then show "e_from e \<noteq> k" "e_to e \<noteq> k" by (simp_all add: removeNode_edges)
qed

theorem edges_join_known_nodes_witness:
  "map (\<lambda>e. (e_from e, e_to e)) (edges (topology (run
      [OpUpdateNode 1 ''node_A'' (neighbors_report [''node_B'']),
       OpUpdateNode 2 ''node_B'' (neighbors_report [''node_A''])]))) = [(''node_B'', ''node_A'')]
   \<and> map fst (nodes (run
      [OpUpdateNode 1 ''node_A'' (neighbors_report [''node_B'']),
       OpUpdateNode 2 ''node_B'' (neighbors_report [''node_A''])])) = [''node_A'', ''node_B'']
   \<and> edges (topology (removeNode 3 ''node_A'' (run
      [OpUpdateNode 1 ''node_A'' (neighbors_report [''node_B'']),
       OpUpdateNode 2 ''node_B'' (neighbors_report [''node_A''])]))) = []"
  using edges_join_known_nodes
    [of "[OpUpdateNode 1 ''node_A'' (neighbors_report [''node_B'']),
          OpUpdateNode 2 ''node_B'' (neighbors_report [''node_A''])]" "''node_A''" 3]
  by (simp add: run_def removeNode_def monitor_defs neighbors_report_def)

section \<open>Two nodes naming each other (C4)\<close>

text \<open>
  C4, as the specification states it, fails: after \<open>node_A\<close> reports the neighbour
  \<open>node_B\<close> and then \<open>node_B\<close> reports the neighbour \<open>node_A\<close>, the topology holds the
  edge from \<open>node_B\<close> to \<open>node_A\<close> only. The edge from \<open>node_A\<close> to \<open>node_B\<close> was skipped
  when \<open>node_A\<close> reported, \<open>node_B\<close> being unknown then, and nothing adds it later.
\<close>

theorem mutual_neighbors_one_edge:
  "map (\<lambda>e. (e_from e, e_to e)) (edges (topology (networkMonitor
      (handleNodeMessage 2 2 (NodeInfoMsg ''node_B'' (neighbors_report [''node_A'']))
        (handleNodeMessage 1 1 (NodeInfoMsg ''node_A'' (neighbors_report [''node_B'']))
           new_server))))) = [(''node_B'', ''node_A'')]
   \<and> (''node_A'', ''node_B'') \<notin> set (map (\<lambda>e. (e_from e, e_to e)) (edges (topology (networkMonitor
      (handleNodeMessage 2 2 (NodeInfoMsg ''node_B'' (neighbors_report [''node_A'']))
        (handleNodeMessage 1 1 (NodeInfoMsg ''node_A'' (neighbors_report [''node_B'']))
           new_server))))))"
  by (simp add: server_defs monitor_defs neighbors_report_def)

text \<open>
  C4, amended: starting from an empty model, a \<open>node_info\<close> report of a node \<open>a\<close> with
  the neighbours \<open>[b]\<close> followed by a \<open>node_info\<close> report of another node \<open>b\<close> with the
  neighbours \<open>[a]\<close> yields a topology with exactly one edge, from \<open>b\<close> to \<open>a\<close>, and
  \<open>totalNodes = 2\<close>.
\<close>

theorem mutual_neighbors_second_reporter_edge:
  assumes "a \<noteq> b" "neighbors ia = Val [b]" "neighbors ib = Val [a]"
  shows "edges (topology (networkMonitor
            (handleNodeMessage t2 s2 (NodeInfoMsg b ib)
              (handleNodeMessage t1 s1 (NodeInfoMsg a ia) new_server))))
          = [\<lparr> e_id = b @ ''-'' @ a, e_from = b, e_to = a, e_type = ''neighbor'' \<rparr>]
       \<and> totalNodes (statistics (networkMonitor
            (handleNodeMessage t2 s2 (NodeInfoMsg b ib)
              (handleNodeMessage t1 s1 (NodeInfoMsg a ia) new_server)))) = 2"
  using assms by (simp add: server_defs monitor_defs)

theorem mutual_neighbors_second_reporter_edge_witness:
  "edges (topology (networkMonitor
      (handleNodeMessage 2 2 (NodeInfoMsg ''node_B'' (neighbors_report [''node_A'']))
        (handleNodeMessage 1 1 (NodeInfoMsg ''node_A'' (neighbors_report [''node_B'']))
           new_server))))
     = [\<lparr> e_id = ''node_B-node_A'', e_from = ''node_B'', e_to = ''node_A'', e_type = ''neighbor'' \<rparr>]
   \<and> totalNodes (statistics (networkMonitor
      (handleNodeMessage 2 2 (NodeInfoMsg ''node_B'' (neighbors_report [''node_A'']))
        (handleNodeMessage 1 1 (NodeInfoMsg ''node_A'' (neighbors_report [''node_B'']))
           new_server)))) = 2"
  using mutual_neighbors_second_reporter_edge
    [of "''node_A''" "''node_B''" "neighbors_report [''node_B'']" "neighbors_report [''node_A'']"
        2 2 1 1]
  by (simp add: neighbors_report_def empty_node_def)

section \<open>Network efficiency (C6)\<close>


















































lemmas token_defs = updateTokenStatus_def token_moved_def truthy_str_def holder_report_def





section \<open>Recomputation of the statistics (C2)\<close>

text \<open>
  C2 at a failing input: a node is registered and reports 5 relayed messages, the token
  goes to \<open>node_A\<close> and then moves to \<open>node_B\<close>. After this last \<open>updateTokenStatus\<close> the
  statistics hold \<open>tokenCirculations = 1\<close> and \<open>messagesRelayed = 5\<close> but still
  \<open>networkEfficiency = 100\<close>, where \<open>calculateGlobalStatistics\<close> on that very state gives
  \<open>250 / 3\<close>: \<open>updateTokenStatus\<close> does not recompute the statistics.
\<close>

theorem updateTokenStatus_leaves_statistics_stale:
  "tokenCirculations (statistics (run
      [OpUpdateNode 1 ''node_A'' empty_node,
       OpUpdateStatistics 2 (Some (relayed_report ''node_A'' 5)),
       OpUpdateTokenStatus 3 (holder_report (Val ''node_A'')),
       OpUpdateTokenStatus 4 (holder_report (Val ''node_B''))])) = 1
   \<and> messagesRelayed (statistics (run
      [OpUpdateNode 1 ''node_A'' empty_node,
       OpUpdateStatistics 2 (Some (relayed_report ''node_A'' 5)),
       OpUpdateTokenStatus 3 (holder_report (Val ''node_A'')),
       OpUpdateTokenStatus 4 (holder_report (Val ''node_B''))])) = 5
   \<and> networkEfficiency (statistics (run
      [OpUpdateNode 1 ''node_A'' empty_node,
       OpUpdateStatistics 2 (Some (relayed_report ''node_A'' 5)),
       OpUpdateTokenStatus 3 (holder_report (Val ''node_A'')),
       OpUpdateTokenStatus 4 (holder_report (Val ''node_B''))])) = 100
   \<and> networkEfficiency (statistics (calculateGlobalStatistics 4 (run
      [OpUpdateNode 1 ''node_A'' empty_node,
       OpUpdateStatistics 2 (Some (relayed_report ''node_A'' 5)),
       OpUpdateTokenStatus 3 (holder_report (Val ''node_A'')),
       OpUpdateTokenStatus 4 (holder_report (Val ''node_B''))]))) = 250 / 3"
  by (simp add: run_def monitor_defs token_defs relayed_report_def)

section \<open>A closed connection (C3)\<close>

lemma on_close_keeps_monitor: "networkMonitor (on_close c s) = networkMonitor s"
  by (simp add: on_close_def broadcastToClients_def split: option.splits)

text \<open>
  C3 at a failing input: \<open>node_A\<close> registers with a \<open>node_info\<close> report and its
  connection closes. The close handler removes \<open>node_A\<close> from \<open>connectedNodes\<close> and emits
  one \<open>node_disconnected\<close>, but it never calls \<open>removeNode\<close>: \<open>node_A\<close> stays in the
  monitor's node map and in the topology, and \<open>activeNodes\<close> stays 1.
\<close>

theorem close_leaves_node_in_monitor:
  "map fst (connectedNodes (on_close \<lparr> conn_nodeId = Some ''node_A'', buffer = [] \<rparr>
      (handleNodeMessage 1 7 (NodeInfoMsg ''node_A'' empty_node) new_server))) = []
   \<and> map fst (nodes (networkMonitor (on_close \<lparr> conn_nodeId = Some ''node_A'', buffer = [] \<rparr>
      (handleNodeMessage 1 7 (NodeInfoMsg ''node_A'' empty_node) new_server)))) = [''node_A'']
   \<and> map tn_id (topo_nodes (topology (networkMonitor (on_close \<lparr> conn_nodeId = Some ''node_A'', buffer = [] \<rparr>
      (handleNodeMessage 1 7 (NodeInfoMsg ''node_A'' empty_node) new_server))))) = [''node_A'']
   \<and> activeNodes (statistics (networkMonitor
      (handleNodeMessage 1 7 (NodeInfoMsg ''node_A'' empty_node) new_server))) = 1
   \<and> activeNodes (statistics (networkMonitor (on_close \<lparr> conn_nodeId = Some ''node_A'', buffer = [] \<rparr>
      (handleNodeMessage 1 7 (NodeInfoMsg ''node_A'' empty_node) new_server)))) = 1
   \<and> map fst (emitted (on_close \<lparr> conn_nodeId = Some ''node_A'', buffer = [] \<rparr>
      (handleNodeMessage 1 7 (NodeInfoMsg ''node_A'' empty_node) new_server)))
        = [''node_info'', ''node_disconnected'']"
  by (simp add: on_close_def server_defs monitor_defs AList.delete_eq)

section \<open>Playback (C5)\<close>

lemma tick_cleared: "\<not> playbackInterval p \<Longrightarrow> ticks k p = ([], p)"
  by (induction k) (simp_all add: tick_def)

lemma ticks_add: "ticks (a + b) p = (fst (ticks a p) @ fst (ticks b (snd (ticks a p))), snd (ticks b (snd (ticks a p))))"
  by (induction a arbitrary: p) (simp_all add: split_beta Let_def)

lemma ticks_play:
  "playbackInterval p \<Longrightarrow> eventIndex p \<le> length (pb_events p) \<Longrightarrow>
     k = length (pb_events p) - eventIndex p \<Longrightarrow>
     ticks (Suc k) p =
       (map PlaybackEvent (drop (eventIndex p) (pb_events p)) @ [PlaybackComplete],
        p\<lparr> eventIndex := length (pb_events p), playbackInterval := False \<rparr>)"
proof (induction k arbitrary: p)
  case 0
  then show ?case by (simp add: tick_def)
next
  case (Suc k)
  let ?p1 = "p\<lparr> eventIndex := eventIndex p + 1 \<rparr>"
  from Suc.prems have lt: "eventIndex p < length (pb_events p)" by simp
  then have t: "tick p = ([PlaybackEvent (pb_events p ! eventIndex p)], ?p1)"
    using Suc.prems by (simp add: tick_def)
  have "ticks (Suc k) ?p1 =
       (map PlaybackEvent (drop (eventIndex ?p1) (pb_events ?p1)) @ [PlaybackComplete],
        ?p1\<lparr> eventIndex := length (pb_events ?p1), playbackInterval := False \<rparr>)"
    using Suc.prems by (intro Suc.IH) simp_all
  then have r: "ticks (Suc k) ?p1 =
       (map PlaybackEvent (drop (Suc (eventIndex p)) (pb_events p)) @ [PlaybackComplete],
        p\<lparr> eventIndex := length (pb_events p), playbackInterval := False \<rparr>)"
    by simp
  have "ticks (Suc (Suc k)) p = (fst (tick p) @ fst (ticks (Suc k) (snd (tick p))), snd (ticks (Suc k) (snd (tick p))))"
    by (simp add: split_beta Let_def)
  then show ?case
    unfolding t fst_conv snd_conv r using lt
    by (simp add: Cons_nth_drop_Suc [symmetric])
qed

lemma playback_emits_loaded:
  "ticks (Suc (length (getRecordingEvents db sid)) + j) (startPlayback db sid)
     = (map PlaybackEvent (getRecordingEvents db sid) @ [PlaybackComplete],
        \<lparr> pb_events = getRecordingEvents db sid, eventIndex = length (getRecordingEvents db sid),
          playbackInterval = False \<rparr>)"
proof -
  define p where "p = startPlayback db sid"
  define n where "n = length (getRecordingEvents db sid)"
  have p: "playbackInterval p" "eventIndex p \<le> length (pb_events p)"
    "n = length (pb_events p) - eventIndex p"
    by (simp_all add: p_def n_def startPlayback_def)
  have q: "drop (eventIndex p) (pb_events p) = getRecordingEvents db sid"
    "p\<lparr> eventIndex := length (pb_events p), playbackInterval := False \<rparr>
      = \<lparr> pb_events = getRecordingEvents db sid, eventIndex = n, playbackInterval = False \<rparr>"
    by (simp_all add: p_def n_def startPlayback_def)
  have a: "ticks (Suc n) p
     = (map PlaybackEvent (getRecordingEvents db sid) @ [PlaybackComplete],
        \<lparr> pb_events = getRecordingEvents db sid, eventIndex = n, playbackInterval = False \<rparr>)"
    unfolding ticks_play [OF p] q ..
  have b: "ticks j \<lparr> pb_events = getRecordingEvents db sid, eventIndex = n, playbackInterval = False \<rparr>
     = ([], \<lparr> pb_events = getRecordingEvents db sid, eventIndex = n, playbackInterval = False \<rparr>)"
    by (rule tick_cleared) simp
  show ?thesis
    unfolding p_def [symmetric] n_def [symmetric] ticks_add a fst_conv snd_conv b by simp
qed

lemma loaded_sorted: "sorted (map ev_timestamp (getRecordingEvents db sid))"
  by (simp add: getRecordingEvents_def)

lemma loaded_mset: "mset (getRecordingEvents db sid) = mset (events_by_ordinal db sid)"
  by (simp add: getRecordingEvents_def events_by_ordinal_def)

lemma loaded_in_order:
  assumes "sorted_wrt (<) (map ev_timestamp (events_by_ordinal db sid))"
  shows "getRecordingEvents db sid = events_by_ordinal db sid"
proof -
  let ?rows = "filter (\<lambda>e. ev_session_id e = sid) (network_events db)"
  from assms have s: "sorted (map ev_timestamp (events_by_ordinal db sid))"
    and d: "distinct (map ev_timestamp (events_by_ordinal db sid))"
    by (simp_all add: strict_sorted_iff)
  have m: "mset ?rows = mset (events_by_ordinal db sid)"
    by (simp add: events_by_ordinal_def)
  then have "set ?rows = set (events_by_ordinal db sid)" by (rule mset_eq_setD)
  with d have "inj_on ev_timestamp (set ?rows)"
    by (simp add: distinct_map)
  from sort_key_inj_key_eq [OF m this s]
  show ?thesis by (simp add: getRecordingEvents_def)
qed

text \<open>
  C5, as the specification states it, fails: the events are loaded in the order of their
  timestamps, not of their ordinals. When the clock of the server is set back between two
  recorded events (the first is stamped 2000, the second 1000), the session holds the
  events 1, 2 by ordinal but playback emits event 2, then event 1, then the completion.
\<close>

theorem playback_follows_timestamps_not_ordinals:
  "map ev_id (events_by_ordinal (recorded_pair 2000 1000) ''s'') = [1, 2]
   \<and> map ev_id (getRecordingEvents (recorded_pair 2000 1000) ''s'') = [2, 1]
   \<and> fst (ticks 3 (startPlayback (recorded_pair 2000 1000) ''s''))
       = [PlaybackEvent \<lparr> ev_id = 2, ev_session_id = ''s'', ev_timestamp = 1000,
            ev_event_type = ''second'', ev_node_id = None, ev_data = OtherMsg ''second'' Absent \<rparr>,
          PlaybackEvent \<lparr> ev_id = 1, ev_session_id = ''s'', ev_timestamp = 2000,
            ev_event_type = ''first'', ev_node_id = None, ev_data = OtherMsg ''first'' Absent \<rparr>,
          PlaybackComplete]"
  by (simp add: recorded_pair_def recordEvent_def startRecordingSession_def events_by_ordinal_def
      getRecordingEvents_def startPlayback_def tick_def or_null_def numeral_3_eq_3)

text \<open>
  C5, amended: for every stored session, starting playback loads the events of the
  session ordered by their recorded timestamp (the same events as the session holds, in
  ascending timestamp), and once the interval has fired one time more than there are
  events, however often it is awaited after that, exactly these events have been emitted
  in that order, followed by exactly one completion signal. This is the order E1..En of
  the ordinals whenever the recorded timestamps increase strictly with the ordinal.
\<close>

theorem playback_emits_loaded_events:
  "fst (ticks (Suc (length (getRecordingEvents db sid)) + j) (startPlayback db sid))
     = map PlaybackEvent (getRecordingEvents db sid) @ [PlaybackComplete]
   \<and> sorted (map ev_timestamp (getRecordingEvents db sid))
   \<and> mset (getRecordingEvents db sid) = mset (events_by_ordinal db sid)
   \<and> (sorted_wrt (<) (map ev_timestamp (events_by_ordinal db sid)) \<longrightarrow>
        fst (ticks (Suc (length (events_by_ordinal db sid)) + j) (startPlayback db sid))
          = map PlaybackEvent (events_by_ordinal db sid) @ [PlaybackComplete])"
proof (intro conjI impI)
  show "fst (ticks (Suc (length (getRecordingEvents db sid)) + j) (startPlayback db sid))
     = map PlaybackEvent (getRecordingEvents db sid) @ [PlaybackComplete]"
    unfolding playback_emits_loaded by simp
  show "sorted (map ev_timestamp (getRecordingEvents db sid))" by (rule loaded_sorted)
  show "mset (getRecordingEvents db sid) = mset (events_by_ordinal db sid)" by (rule loaded_mset)
next
  assume "sorted_wrt (<) (map ev_timestamp (events_by_ordinal db sid))"
  then have eq: "getRecordingEvents db sid = events_by_ordinal db sid" by (rule loaded_in_order)
  show "fst (ticks (Suc (length (events_by_ordinal db sid)) + j) (startPlayback db sid))
          = map PlaybackEvent (events_by_ordinal db sid) @ [PlaybackComplete]"
    unfolding eq [symmetric] playback_emits_loaded by simp
qed

theorem playback_emits_loaded_events_witness:
  "sorted_wrt (<) (map ev_timestamp (events_by_ordinal (recorded_pair 1000 2000) ''s''))
   \<and> fst (ticks 3 (startPlayback (recorded_pair 1000 2000) ''s''))
       = [PlaybackEvent \<lparr> ev_id = 1, ev_session_id = ''s'', ev_timestamp = 1000,
            ev_event_type = ''first'', ev_node_id = None, ev_data = OtherMsg ''first'' Absent \<rparr>,
          PlaybackEvent \<lparr> ev_id = 2, ev_session_id = ''s'', ev_timestamp = 2000,
            ev_event_type = ''second'', ev_node_id = None, ev_data = OtherMsg ''second'' Absent \<rparr>,
          PlaybackComplete]"
  using playback_emits_loaded_events [of "recorded_pair 1000 2000" "''s''" 0]
  by (simp add: recorded_pair_def recordEvent_def startRecordingSession_def events_by_ordinal_def
      getRecordingEvents_def startPlayback_def tick_def or_null_def numeral_3_eq_3)

section \<open>The framer (C7)\<close>

lemma split_nl_nonempty: "split_nl s \<noteq> []"
  by (induction s) (auto split: list.splits)

lemma split_nl_cons:
  "split_nl (c # cs) = (if c = newline then [] # split_nl cs
     else (c # hd (split_nl cs)) # tl (split_nl cs))"
  using split_nl_nonempty [of cs] by (cases "split_nl cs") simp_all

lemma split_nl_append:
  "split_nl (a @ b) = butlast (split_nl a) @ split_nl (last (split_nl a) @ b)"
proof (induction a)
  case Nil
  show ?case by simp
next
  case (Cons c a)
  show ?case
  proof (cases "c = newline")
    case True
    then show ?thesis using Cons split_nl_nonempty [of a] by simp
  next
    case False
    show ?thesis
    proof (cases "butlast (split_nl a)")
      case Nil
      then have one: "split_nl a = [last (split_nl a)]"
        using split_nl_nonempty [of a] by (metis append_butlast_last_id append_Nil)
      have "split_nl ((c # a) @ b) = (c # hd (split_nl (a @ b))) # tl (split_nl (a @ b))"
        using False by (simp add: split_nl_cons del: split_nl.simps)
      also have "split_nl (a @ b) = split_nl (last (split_nl a) @ b)"
        using Cons Nil by simp
      finally have l: "split_nl ((c # a) @ b)
          = (c # hd (split_nl (last (split_nl a) @ b))) # tl (split_nl (last (split_nl a) @ b))" .
      have "split_nl (c # a) = [c # last (split_nl a)]"
        using False one by (subst split_nl_cons) (metis list.sel(1,3))
      then have r: "butlast (split_nl (c # a)) @ split_nl (last (split_nl (c # a)) @ b)
          = split_nl (c # (last (split_nl a) @ b))" by simp
      show ?thesis unfolding l r using False by (simp add: split_nl_cons del: split_nl.simps)
    next
      case (Cons l ls)
      then obtain x where sa: "split_nl a = l # ls @ [x]"
        using split_nl_nonempty [of a] by (metis append_butlast_last_id append_Cons)
      have "split_nl (a @ b) = l # ls @ split_nl (x @ b)"
        using Cons.IH sa by simp
      then have "split_nl ((c # a) @ b) = (c # l) # ls @ split_nl (x @ b)"
        using False by (simp add: split_nl_cons del: split_nl.simps)
      moreover have "split_nl (c # a) = (c # l) # ls @ [x]"
        using False sa by (simp add: split_nl_cons del: split_nl.simps)
      ultimately show ?thesis by simp
    qed
  qed
qed

lemma split_nl_line:
  "newline \<notin> set l \<Longrightarrow> split_nl (l @ newline # rest) = l # split_nl rest"
  by (induction l) (auto simp: split_nl_cons simp del: split_nl.simps)

lemma split_nl_no_newline: "l \<in> set (split_nl s) \<Longrightarrow> newline \<notin> set l"
proof (induction s arbitrary: l)
  case Nil
  then show ?case by simp
next
  case (Cons c s)
  then show ?case
    using split_nl_nonempty [of s]
    by (cases "split_nl s") (auto split: if_splits)
qed

lemma split_nl_concat:
  "concat (map (\<lambda>l. l @ [newline]) (butlast (split_nl s))) @ last (split_nl s) = s"
proof (induction s)
  case Nil
  show ?case by simp
next
  case (Cons c s)
  then show ?case
    using split_nl_nonempty [of s]
    by (cases "split_nl s") (auto split: if_splits)
qed


lemma process_line_set_buffer:
  "process_line parse now sock (set_buffer b cs) l = set_buffer b (process_line parse now sock cs l)"
  by (simp add: process_line_def set_buffer_def Let_def split: option.splits message.splits)

lemma foldl_process_set_buffer:
  "foldl (process_line parse now sock) (set_buffer b cs) ls
     = set_buffer b (foldl (process_line parse now sock) cs ls)"
  by (induction ls arbitrary: cs) (simp_all add: process_line_set_buffer)

lemma on_data_eq:
  "on_data toString parse now sock chunk cs =
     set_buffer (last (split_nl (buffer (fst cs) @ toString chunk)))
       (foldl (process_line parse now sock) cs
          (butlast (split_nl (buffer (fst cs) @ toString chunk))))"
  using foldl_process_set_buffer [of parse now sock _ cs]
  by (simp add: on_data_def Let_def set_buffer_def)

lemma set_buffer_simps:
  "buffer (fst (set_buffer b cs)) = b"
  "set_buffer b (set_buffer b' cs) = set_buffer b cs"
  by (simp_all add: set_buffer_def)

lemma on_data_buffer:
  "buffer (fst (on_data toString parse now sock chunk cs))
     = last (split_nl (buffer (fst cs) @ toString chunk))"
  by (simp add: on_data_eq set_buffer_simps)

text \<open>
  Two reads are handled as the one read of both whenever decoding the two pieces gives
  the text of the whole, that is, when no character is cut by the end of the first read.
\<close>

lemma on_data_append:
  assumes "toString (c1 @ c2) = toString c1 @ toString c2"
  shows "on_data toString parse now sock (c1 @ c2) cs
           = on_data toString parse now sock c2 (on_data toString parse now sock c1 cs)"
proof -
  define m1 where "m1 = split_nl (buffer (fst cs) @ toString c1)"
  define m2 where "m2 = split_nl (last m1 @ toString c2)"
  have m2: "m2 \<noteq> []" by (simp add: m2_def split_nl_nonempty)
  have all: "split_nl (buffer (fst cs) @ toString (c1 @ c2)) = butlast m1 @ m2"
    using split_nl_append [of "buffer (fst cs) @ toString c1" "toString c2"]
    by (simp add: m1_def m2_def assms)
  have l: "on_data toString parse now sock (c1 @ c2) cs
      = set_buffer (last m2) (foldl (process_line parse now sock)
          (foldl (process_line parse now sock) cs (butlast m1)) (butlast m2))"
    using m2 unfolding on_data_eq all by (simp add: butlast_append)
  have r1: "on_data toString parse now sock c1 cs
      = set_buffer (last m1) (foldl (process_line parse now sock) cs (butlast m1))"
    by (simp add: on_data_eq m1_def)
  have "on_data toString parse now sock c2 (on_data toString parse now sock c1 cs)
      = set_buffer (last m2) (foldl (process_line parse now sock)
          (set_buffer (last m1) (foldl (process_line parse now sock) cs (butlast m1))) (butlast m2))"
    unfolding r1 by (subst on_data_eq) (simp add: set_buffer_simps m2_def)
  also have "\<dots> = set_buffer (last m2) (foldl (process_line parse now sock)
          (foldl (process_line parse now sock) cs (butlast m1)) (butlast m2))"
    by (simp add: foldl_process_set_buffer set_buffer_simps)
  finally show ?thesis using l by simp
qed

lemma process_line_malformed: "parse l = None \<Longrightarrow> process_line parse now sock cs l = cs"
  by (simp add: process_line_def)

text \<open>
  A read whose text is a malformed line and then a valid \<open>node_info\<close> line: the
  malformed line changes nothing and the valid line is applied.
\<close>

lemma malformed_then_node_info:
  assumes "toString chunk = bad @ [newline] @ good @ [newline]"
    "newline \<notin> set (buffer c @ bad)" "newline \<notin> set good" "\<not> blank good"
    "parse (buffer c @ bad) = None" "parse good = Some (NodeInfoMsg k d)"
  shows "on_data toString parse now sock chunk (c, s)
     = (c\<lparr> conn_nodeId := Some k, buffer := [] \<rparr>, handleNodeMessage now sock (NodeInfoMsg k d) s)"
proof -
  have a: "split_nl (good @ newline # []) = [good, []]"
    using split_nl_line [OF assms(3), of "[]"] by simp
  have "split_nl ((buffer c @ bad) @ newline # (good @ newline # []))
      = (buffer c @ bad) # split_nl (good @ newline # [])"
    by (rule split_nl_line [OF assms(2)])
  then have "split_nl (buffer c @ toString chunk) = [buffer c @ bad, good, []]"
    unfolding a assms(1) by simp
  then show ?thesis
    using assms(4,5,6)
    by (simp add: on_data_def Let_def process_line_def del: split_nl.simps)
qed

text \<open>
  C7 at a failing input: the bytes of a valid \<open>node_info\<close> line whose \<open>nodeId\<close> is the
  one character U+00E9 (the bytes C3 A9) arrive in two reads, the first of which ends
  after the byte C3. Each read is decoded on its own: the byte C3 that ends the first read is
  not kept for the next read but becomes U+FFFD, and the byte A9 that begins the second
  read becomes U+FFFD too. The line that reaches \<open>JSON.parse\<close> names the node by two
  replacement characters, where the same bytes in one read give the line as it was sent.
\<close>

theorem split_character_is_not_retained:
  \<open>buffer (fst (on_data utf8_toString parse t1 sock
       (ascii ''{"type":"node_info","data":{"nodeId":"'' @ [0xC3]) (new_connection, s)))
     = ascii ''{"type":"node_info","data":{"nodeId":"'' @ [0xFFFD]
   \<and> on_data utf8_toString parse t2 sock (0xA9 # ascii ''"}}'' @ [0x0A])
       (on_data utf8_toString parse t1 sock
          (ascii ''{"type":"node_info","data":{"nodeId":"'' @ [0xC3]) (new_connection, s))
     = process_line parse t2 sock (new_connection, s)
         (ascii ''{"type":"node_info","data":{"nodeId":"'' @ [0xFFFD, 0xFFFD] @ ascii ''"}}'')
   \<and> on_data utf8_toString parse t2 sock
       (ascii ''{"type":"node_info","data":{"nodeId":"'' @ [0xC3, 0xA9] @ ascii ''"}}'' @ [0x0A])
       (new_connection, s)
     = process_line parse t2 sock (new_connection, s)
         (ascii ''{"type":"node_info","data":{"nodeId":"'' @ [0xE9] @ ascii ''"}}'')\<close>
  by (simp add: on_data_def utf8_toString_def utf16_def ascii_def new_connection_def newline_def)

section \<open>Merging node reports (C8)\<close>

lemma updateNode_nodes:
  "nodes (updateNode now k info m)
     = AList.update k
         ((spread_node (case map_of (nodes m) k of None \<Rightarrow> empty_node | Some n \<Rightarrow> n) info)
            \<lparr> lastUpdated := Val now \<rparr>) (nodes m)"
  by (simp add: updateNode_def Let_def updateStatistics_def calc_nodes utfn_nodes)

lemma handle_node_info_monitor:
  "networkMonitor (handleNodeMessage t sock (NodeInfoMsg k d) s)
     = updateNode t k (d\<lparr> socket := Val sock, lastSeen := Val t, status := Val ''active'' \<rparr>)
         (networkMonitor s)"
  by (simp add: handleNodeMessage_def handleNodeInfo_def broadcastToClients_def Let_def)

lemma stored_after_report:
  "map_of (nodes (networkMonitor (handleNodeMessage t sock (NodeInfoMsg k d) s))) k
     = Some ((spread_node (stored_node s k)
          (d\<lparr> socket := Val sock, lastSeen := Val t, status := Val ''active'' \<rparr>))
            \<lparr> lastUpdated := Val t \<rparr>)"
  by (simp add: handle_node_info_monitor updateNode_nodes AList.update_conv' stored_node_def)

lemma stored_node_after_report:
  "stored_node (handleNodeMessage t sock (NodeInfoMsg k d) s) k
     = (spread_node (stored_node s k)
          (d\<lparr> socket := Val sock, lastSeen := Val t, status := Val ''active'' \<rparr>))
            \<lparr> lastUpdated := Val t \<rparr>"
  unfolding stored_node_def [of "handleNodeMessage t sock (NodeInfoMsg k d) s"] stored_after_report
  by simp

lemma run_fields:
  "ip (stored_node (node_info_run k rs s) k) = merged (ip (stored_node s k)) (map (ip \<circ> report_data) rs)"
  "port (stored_node (node_info_run k rs s) k) = merged (port (stored_node s k)) (map (port \<circ> report_data) rs)"
  "neighbors (stored_node (node_info_run k rs s) k) = merged (neighbors (stored_node s k)) (map (neighbors \<circ> report_data) rs)"
  "version (stored_node (node_info_run k rs s) k) = merged (version (stored_node s k)) (map (version \<circ> report_data) rs)"
  by (induction k rs s rule: node_info_run.induct;
      simp add: merged_def stored_node_after_report spread_node_def report_data_def)+

lemma run_snoc:
  "node_info_run k (rs @ [(t, sock, d)]) s = handleNodeMessage t sock (NodeInfoMsg k d) (node_info_run k rs s)"
  by (induction k rs s rule: node_info_run.induct) simp_all

lemma run_last:
  assumes "rs \<noteq> []"
  shows "map_of (nodes (networkMonitor (node_info_run k rs s))) k
           = Some (stored_node (node_info_run k rs s) k)"
    and "status (stored_node (node_info_run k rs s) k) = Val ''active''"
    and "lastSeen (stored_node (node_info_run k rs s) k) = Val (fst (last rs))"
proof -
  from assms obtain rs' t sock d where rs: "rs = rs' @ [(t, sock, d)]"
    by (metis append_butlast_last_id prod_cases3)
  show "map_of (nodes (networkMonitor (node_info_run k rs s))) k
           = Some (stored_node (node_info_run k rs s) k)"
    unfolding rs run_snoc stored_node_after_report stored_after_report ..
  show "status (stored_node (node_info_run k rs s) k) = Val ''active''"
    unfolding rs run_snoc stored_node_after_report
    by (simp add: spread_node_def spread_field_def)
  show "lastSeen (stored_node (node_info_run k rs s) k) = Val (fst (last rs))"
    unfolding rs run_snoc stored_node_after_report
    by (simp add: spread_node_def spread_field_def)
qed

text \<open>
  C8, as the specification states it, fails. A report that carries \<open>null\<close> for a key does
  overwrite the earlier value: after the address \<open>10.0.0.1\<close> and then \<open>null\<close> are
  reported, the record holds \<open>null\<close>, where the last non-null value supplied is
  \<open>10.0.0.1\<close>. And \<open>status\<close> is not the value supplied: a report with the status
  \<open>inactive\<close> is stored as \<open>active\<close>.
\<close>

theorem node_info_null_overwrites:
  "ip (stored_node (node_info_run ''node_A''
        [(1, 7, ip_report (Val ''10.0.0.1'')), (2, 7, ip_report Null)] new_server) ''node_A'') = Null
   \<and> spec_last_non_null [Val ''10.0.0.1'', Null] = Val ''10.0.0.1''
   \<and> status (stored_node (node_info_run ''node_A''
        [(1, 7, empty_node\<lparr> status := Val ''inactive'' \<rparr>)] new_server) ''node_A'') = Val ''active''"
  by (simp add: stored_node_def server_defs monitor_defs ip_report_def)

text \<open>
  C8, amended: after a non-empty sequence of \<open>node_info\<close> reports for the same node, the
  monitor holds a record for the node in which each of \<open>ip\<close>, \<open>port\<close>, \<open>neighbors\<close> and
  \<open>version\<close> is the value of the most recent report that carries the key, \<open>null\<close>
  included, and the value held before when no report carries it; \<open>status\<close> is
  \<open>active\<close>; and \<open>lastSeen\<close> is the time at which the server dispatched the most recent
  report.
\<close>

theorem node_info_merges_present_keys:
  assumes "rs \<noteq> []"
  shows "map_of (nodes (networkMonitor (node_info_run k rs s))) k
           = Some (stored_node (node_info_run k rs s) k)
       \<and> ip (stored_node (node_info_run k rs s) k)
           = merged (ip (stored_node s k)) (map (ip \<circ> report_data) rs)
       \<and> port (stored_node (node_info_run k rs s) k)
           = merged (port (stored_node s k)) (map (port \<circ> report_data) rs)
       \<and> neighbors (stored_node (node_info_run k rs s) k)
           = merged (neighbors (stored_node s k)) (map (neighbors \<circ> report_data) rs)
       \<and> version (stored_node (node_info_run k rs s) k)
           = merged (version (stored_node s k)) (map (version \<circ> report_data) rs)
       \<and> status (stored_node (node_info_run k rs s) k) = Val ''active''
       \<and> lastSeen (stored_node (node_info_run k rs s) k) = Val (fst (last rs))"
  using run_last [OF assms, of k s] run_fields [of k rs s] by simp

theorem node_info_merges_present_keys_witness:
  "[(1, 7, ip_report (Val ''10.0.0.1'')), (2, 8, ip_report Absent)] \<noteq> []
   \<and> ip (stored_node (node_info_run ''node_A''
        [(1, 7, ip_report (Val ''10.0.0.1'')), (2, 8, ip_report Absent)] new_server) ''node_A'')
       = Val ''10.0.0.1''
   \<and> lastSeen (stored_node (node_info_run ''node_A''
        [(1, 7, ip_report (Val ''10.0.0.1'')), (2, 8, ip_report Absent)] new_server) ''node_A'')
       = Val 2"
  using node_info_merges_present_keys
    [of "[(1, 7, ip_report (Val ''10.0.0.1'')), (2, 8, ip_report Absent)]" "''node_A''" new_server]
  by (simp add: merged_def report_data_def ip_report_def stored_node_def spread_field_def
       new_server_def constructor_def empty_node_def)

section \<open>Reset (C10)\<close>

text \<open>
  C10: \<open>reset\<close> empties the node map, the DFS map, the performance map, the token
  history and the topology and puts the token status back to its initial value, while
  \<open>tokenCirculations\<close> and \<open>averageTokenHoldTime\<close> keep the values they had before.
\<close>

theorem reset_keeps_token_counters:
  "nodes (reset now m) = [] \<and> dfsState (reset now m) = [] \<and> performanceMetrics (reset now m) = []
   \<and> tokenHistory (reset now m) = []
   \<and> topology (reset now m) = \<lparr> topo_nodes = [], edges = [] \<rparr>
   \<and> tokenStatus (reset now m) = \<lparr> currentHolder = Null, sequence = Val 0, phase = Val ''FORWARD'',
         traversalDepth = Val 0, visitedCount = 0, lastMovement = Null \<rparr>
   \<and> tokenCirculations (statistics (reset now m)) = tokenCirculations (statistics m)
   \<and> averageTokenHoldTime (statistics (reset now m)) = averageTokenHoldTime (statistics m)"
  by (simp add: reset_def calculateGlobalStatistics_def initial_tokenStatus_def Let_def)

end
